theory Spec2Isabelle
  imports Main "HOL-Library.Multiset"
begin

section \<open>Python library functions used by the plugin\<close>

text \<open>
  Strings are byte lists. \<open>os.path\<close> is \<open>posixpath\<close> (the host runs on Linux), and
  \<open>str.lower\<close> is modelled on ASCII letters; other bytes are left as they are.
\<close>

definition lower_char :: "char \<Rightarrow> char" where
  "lower_char c =
     (let n = (of_char c :: nat) in if 65 \<le> n \<and> n \<le> 90 then char_of (n + 32) else c)"

definition lower :: "string \<Rightarrow> string" where
  "lower s = map lower_char s"

text \<open>\<open>p.rfind(c)\<close>: the index of the last occurrence of \<open>c\<close>, or \<open>-1\<close>.\<close>

definition rfind :: "string \<Rightarrow> char \<Rightarrow> int" where
  "rfind p c =
     (if c \<in> set p
      then int (length p) - 1 - int (length (takeWhile (\<lambda>x. x \<noteq> c) (rev p)))
      else - 1)"

text \<open>\<open>posixpath.basename\<close>: \<open>i = p.rfind('/') + 1; return p[i:]\<close>.\<close>

definition basename :: "string \<Rightarrow> string" where
  "basename p = (let i = rfind p (CHR ''/'') + 1 in drop (nat i) p)"

text \<open>\<open>s.rstrip('/')\<close>.\<close>

definition rstrip_sep :: "string \<Rightarrow> string" where
  "rstrip_sep s = rev (dropWhile (\<lambda>c. c = CHR ''/'') (rev s))"

text \<open>
  \<open>posixpath.dirname\<close>: \<open>i = p.rfind('/') + 1; head = p[:i];
  if head and head != '/' * len(head): head = head.rstrip('/'); return head\<close>.
\<close>

definition dirname :: "string \<Rightarrow> string" where
  "dirname p =
     (let i = rfind p (CHR ''/'') + 1;
          head = take (nat i) p
      in if head \<noteq> [] \<and> head \<noteq> replicate (length head) (CHR ''/'')
         then rstrip_sep head else head)"

text \<open>
  \<open>posixpath.splitext\<close> (\<open>genericpath._splitext\<close>): the extension starts at the last
  dot, if that dot comes after the last separator and some character of the file name
  before it is not a dot; otherwise the extension is empty.
\<close>

definition splitext :: "string \<Rightarrow> string \<times> string" where
  "splitext p =
     (let sepIndex = rfind p (CHR ''/'');
          dotIndex = rfind p (CHR ''.'')
      in if dotIndex > sepIndex \<and>
            filter (\<lambda>c. c \<noteq> CHR ''.'')
              (take (nat (dotIndex - (sepIndex + 1))) (drop (nat (sepIndex + 1)) p)) \<noteq> []
         then (take (nat dotIndex) p, drop (nat dotIndex) p)
         else (p, []))"

text \<open>\<open>posixpath.join(a, b)\<close> with two arguments.\<close>

definition join :: "string \<Rightarrow> string \<Rightarrow> string" where
  "join a b =
     (if b \<noteq> [] \<and> hd b = CHR ''/'' then b
      else if a = [] \<or> last a = CHR ''/'' then a @ b
      else a @ [CHR ''/''] @ b)"

text \<open>The substring test \<open>needle in hay\<close>.\<close>

fun str_contains :: "string \<Rightarrow> string \<Rightarrow> bool" where
  "str_contains needle [] = (needle = [])"
| "str_contains needle (c # cs) =
     (take (length needle) (c # cs) = needle \<or> str_contains needle cs)"

text \<open>
  \<open>shlex.quote\<close>: the empty string becomes two single quotes; a string made only of
  the characters \<open>[A-Za-z0-9_@%+=:,./-]\<close> is returned as it is; any other string is put in
  single quotes, each single quote of it replaced by \<open>'"'"'\<close>.
\<close>

definition safe_char :: "char \<Rightarrow> bool" where
  "safe_char c =
     (let n = (of_char c :: nat)
      in (97 \<le> n \<and> n \<le> 122) \<or> (65 \<le> n \<and> n \<le> 90) \<or> (48 \<le> n \<and> n \<le> 57)
         \<or> c \<in> set ''_@%+=:,./-'')"

definition squote :: char where
  "squote = CHR 0x27"

definition dquote :: char where
  "dquote = CHR 0x22"

definition escape_squotes :: "string \<Rightarrow> string" where
  "escape_squotes s =
     concat (map (\<lambda>c. if c = squote then [squote, dquote, squote, dquote, squote] else [c]) s)"

definition shlex_quote :: "string \<Rightarrow> string" where
  "shlex_quote s =
     (if s = [] then [squote, squote]
      else if filter (\<lambda>c. \<not> safe_char c) s = [] then s
      else [squote] @ escape_squotes s @ [squote])"

text \<open>
  The values the record store can hand back, and how \<open>Counter(v)\<close> iterates over them:
  \<open>None\<close> has no elements, a string yields its characters as one-character strings, a
  list yields its items.
\<close>

datatype pyval = PyNone | PyStr string | PyList "string list"

fun elements :: "pyval \<Rightarrow> string list" where
  "elements PyNone = []"
| "elements (PyStr s) = map (\<lambda>c. [c]) s"
| "elements (PyList xs) = xs"

text \<open>
  \<open>collections.Counter\<close>: a dict from element to count, built by counting the elements
  in turn. Two counters are equal when they are equal as dicts: the same number of keys,
  and every key of one bound to the same count in the other.
\<close>

fun count_elem :: "'a \<Rightarrow> ('a \<times> nat) list \<Rightarrow> ('a \<times> nat) list" where
  "count_elem x [] = [(x, 1)]"
| "count_elem x ((k, n) # kvs) =
     (if k = x then (k, n + 1) # kvs else (k, n) # count_elem x kvs)"

definition Counter :: "'a list \<Rightarrow> ('a \<times> nat) list" where
  "Counter xs = foldl (\<lambda>d x. count_elem x d) [] xs"

definition dict_eq :: "('a \<times> nat) list \<Rightarrow> ('a \<times> nat) list \<Rightarrow> bool" where
  "dict_eq a b =
     (length a = length b \<and> filter (\<lambda>(k, v). map_of b k \<noteq> Some v) a = [])"

section \<open>The host: file system, probe, record store\<close>

datatype exn = AttributeError | OSError | KeyError

text \<open>
  Modelled from the spec: the per-directory record store of the host
  (\<open>UnmanicDirectoryInfo\<close>), an opaque key-value store with get, set and save. What
  \<open>get\<close> does for a section and an option is given per key: it raises or it returns a
  value. The store may normalise option names; the normalisation is the parameter
  \<open>key_norm\<close> of the host.
\<close>

type_synonym dirinfo = "string \<times> string \<Rightarrow> exn + pyval"

type_synonym store = "string \<Rightarrow> dirinfo"

record host =
  listdir :: "string \<Rightarrow> string list option"
  probe_file :: "string \<Rightarrow> bool"
  key_norm :: "string \<Rightarrow> string"

definition UnmanicDirectoryInfo :: "store \<Rightarrow> string \<Rightarrow> dirinfo" where
  "UnmanicDirectoryInfo st directory = st directory"

definition di_get :: "host \<Rightarrow> dirinfo \<Rightarrow> string \<Rightarrow> string \<Rightarrow> exn + pyval" where
  "di_get h info section option = info (section, key_norm h option)"

definition di_set :: "host \<Rightarrow> dirinfo \<Rightarrow> string \<Rightarrow> string \<Rightarrow> pyval \<Rightarrow> dirinfo" where
  "di_set h info section option v = info((section, key_norm h option) := Inr v)"

definition di_save :: "store \<Rightarrow> string \<Rightarrow> dirinfo \<Rightarrow> store" where
  "di_save st directory info = st(directory := info)"

text \<open>
  What a runner leaves behind besides its result: the warnings and info lines it logs and
  the operations it performs on the record store. Debug lines are not recorded.
\<close>

datatype event =
    Warning string
  | Info string
  | StoreSet string string string pyval
  | StoreSave string

datatype result = ReturnsData | ReturnsNone | Raises exn

section \<open>The inclusion test\<close>

record file_test_data =
  library_id :: nat
  path :: string
  issues :: "string list"
  add_file_to_pending_tasks :: bool
  priority_score :: int
  shared_info :: "(string \<times> string) list"

text \<open>The subtitle files the inclusion test finds in a directory listing.\<close>

definition srts_found :: "string \<Rightarrow> string list \<Rightarrow> string list" where
  "srts_found p files =
     filter (\<lambda>file. lower (snd (splitext file)) = ''.srt''
                   \<and> str_contains (fst (splitext (basename p))) file) files"

definition already_synced_of :: "host \<Rightarrow> store \<Rightarrow> string \<Rightarrow> pyval" where
  "already_synced_of h st p =
     (let directory_info = UnmanicDirectoryInfo st (dirname p)
      in case di_get h directory_info ''subs_synced'' (lower (basename p)) of
           Inl e \<Rightarrow> PyStr []
         | Inr v \<Rightarrow> v)"

definition subs_already_synced :: "host \<Rightarrow> store \<Rightarrow> string \<Rightarrow> exn + bool" where
  "subs_already_synced h st p =
     (let already_synced = already_synced_of h st p
      in case listdir h (dirname p) of
           None \<Rightarrow> Inl OSError
         | Some files \<Rightarrow>
             (let srts = srts_found p files
              in if dict_eq (Counter (elements already_synced)) (Counter srts)
                 then Inr True
                 else Inr False))"

definition on_library_management_file_test ::
  "host \<Rightarrow> store \<Rightarrow> file_test_data \<Rightarrow> result \<times> file_test_data" where
  "on_library_management_file_test h st data =
     (let abspath = path data
      in if lower (snd (splitext abspath)) = ''.mp4''
         then (case subs_already_synced h st abspath of
                 Inl e \<Rightarrow> (Raises e, data)
               | Inr synced \<Rightarrow>
                   if \<not> synced
                   then (ReturnsData, data\<lparr>add_file_to_pending_tasks := True\<rparr>)
                   else (ReturnsData, data))
         else (ReturnsData, data))"

section \<open>The command builder\<close>

datatype progress_parser = ParseProgress string

record worker_data =
  exec_command :: "string list"
  command_progress_parser :: "progress_parser option"
  file_in :: string
  file_out :: string
  original_file_path :: string
  repeat :: bool

text \<open>
  The settings and the system information that the runner reads at its start are used
  nowhere in it and are left out. On the probe-failure branch \<open>logger.warning\<close> logs its
  argument and returns \<open>None\<close>; calling \<open>format\<close> on that raises, so the \<open>return\<close>
  that follows is never reached.
\<close>

text \<open>The subtitle files the command builder and the completion recorder take.\<close>

definition srtfiles_of :: "string \<Rightarrow> string list \<Rightarrow> string list" where
  "srtfiles_of p allfiles =
     filter (\<lambda>file. snd (splitext file) = ''.srt''
                   \<and> str_contains (fst (splitext (basename p))) file) allfiles"

text \<open>One pass of the loop that builds the script: the text added for one subtitle.\<close>

definition sync_call :: "string \<Rightarrow> string \<Rightarrow> string" where
  "sync_call abspath srt =
     ''ffsubsync '' @ shlex_quote abspath
       @ '' -i '' @ shlex_quote (join (dirname abspath) srt)
       @ '' -o '' @ shlex_quote (join (dirname abspath) srt)
       @ '' --gss;''"

definition longcommand_of :: "string \<Rightarrow> string list \<Rightarrow> string" where
  "longcommand_of abspath srtfiles =
     (let longcommand = foldl (\<lambda>acc srt. acc @ sync_call abspath srt) [] srtfiles
      in take (length longcommand - 2) longcommand)"

definition on_worker_process ::
  "host \<Rightarrow> worker_data \<Rightarrow> result \<times> worker_data \<times> event list" where
  "on_worker_process h data0 =
     (let data = data0\<lparr>exec_command := [], repeat := False\<rparr>;
          abspath = original_file_path data
      in if \<not> probe_file h abspath
         then (Raises AttributeError, data, [Warning ''Failed probed for file {}''])
         else (case listdir h (dirname abspath) of
                 None \<Rightarrow> (Raises OSError, data, [])
               | Some allfiles \<Rightarrow>
                   (let srtfiles = srtfiles_of abspath allfiles
                    in if length srtfiles < 1 then (ReturnsData, data, [])
                       else (let longcommand = longcommand_of abspath srtfiles;
                                 data = data\<lparr>exec_command := [''bash'', ''-c'', longcommand]\<rparr>
                             in if exec_command data \<noteq> []
                                then (ReturnsData,
                                      data\<lparr>command_progress_parser :=
                                              Some (ParseProgress abspath)\<rparr>, [])
                                else (ReturnsData, data, [])))))"

section \<open>The completion recorder\<close>

record task_results_data =
  task_processing_success :: bool
  file_move_processes_success :: bool
  destination_files :: "string list"
  source_data :: "(string \<times> string) list"

fun record_loop ::
  "host \<Rightarrow> string list \<Rightarrow> store \<Rightarrow> event list \<Rightarrow> result \<times> store \<times> event list" where
  "record_loop h [] st tr = (ReturnsData, st, tr)"
| "record_loop h (destination_file # rest) st tr =
     (let directory_info = UnmanicDirectoryInfo st (dirname destination_file)
      in case listdir h (dirname destination_file) of
           None \<Rightarrow> (Raises OSError, st, tr)
         | Some allfiles \<Rightarrow>
             (let srtfiles = srtfiles_of destination_file allfiles;
                  directory_info = di_set h directory_info ''subs_synced''
                                     (basename destination_file) (PyList srtfiles);
                  st = di_save st (dirname destination_file) directory_info
              in record_loop h rest st
                   (tr @ [StoreSet (dirname destination_file) ''subs_synced''
                            (basename destination_file) (PyList srtfiles),
                          StoreSave (dirname destination_file),
                          Info (''subtitles synced for '' @ [squote] @ destination_file
                                @ [squote] @ '' and recorded in .unmanic file.'')])))"

definition on_postprocessor_task_results ::
  "host \<Rightarrow> store \<Rightarrow> task_results_data \<Rightarrow> result \<times> task_results_data \<times> store \<times> event list" where
  "on_postprocessor_task_results h st data =
     (if \<not> task_processing_success data then (ReturnsData, data, st, [])
      else (case record_loop h (destination_files data) st [] of
              (r, st', tr) \<Rightarrow> (r, data, st', tr)))"

text \<open>The record store as the completion recorder leaves it.\<close>

definition store_after :: "host \<Rightarrow> store \<Rightarrow> task_results_data \<Rightarrow> store" where
  "store_after h st data = fst (snd (snd (on_postprocessor_task_results h st data)))"

section \<open>Notions of the specification\<close>

text \<open>
  The subtitle file names a record entry holds: none when the lookup raises (the
  inclusion test treats that as no prior record), else the elements of the value.
\<close>

definition recorded_names :: "exn + pyval \<Rightarrow> string list" where
  "recorded_names entry = (case entry of Inl e \<Rightarrow> [] | Inr v \<Rightarrow> elements v)"

text \<open>The entry of the record store that the inclusion test reads for a path.\<close>

definition sync_record_entry :: "host \<Rightarrow> store \<Rightarrow> string \<Rightarrow> exn + pyval" where
  "sync_record_entry h st p = st (dirname p) (''subs_synced'', key_norm h (lower (basename p)))"

text \<open>
  The words of the specification for the inclusion test, written without the functions
  of the runner. The file name of a path is what follows its last separator.
\<close>

definition spec_file_name :: "string \<Rightarrow> string" where
  "spec_file_name p = rev (takeWhile (\<lambda>c. c \<noteq> CHR ''/'') (rev p))"

text \<open>
  The extension of a path is the text of its file name from the last dot on, provided
  some character of the file name before that dot is not a dot; otherwise the path has no
  extension.
\<close>

definition spec_extension :: "string \<Rightarrow> string" where
  "spec_extension p =
     (let name = spec_file_name p;
          ending = rev (takeWhile (\<lambda>c. c \<noteq> CHR ''.'') (rev name));
          front = take (length name - length ending - 1) name
      in if CHR ''.'' \<in> set name \<and> list_ex (\<lambda>c. c \<noteq> CHR ''.'') front
         then CHR ''.'' # ending else [])"

text \<open>The base name of a media file: its file name without the extension.\<close>

definition spec_stem :: "string \<Rightarrow> string" where
  "spec_stem p =
     (let name = spec_file_name p in take (length name - length (spec_extension p)) name)"

text \<open>Two texts are equal in any letter case when their lower-cased forms are equal.\<close>

definition spec_ci_equal :: "string \<Rightarrow> string \<Rightarrow> bool" where
  "spec_ci_equal a b = (lower a = lower b)"

text \<open>A name contains a text when the text starts at some position of the name.\<close>

definition spec_contains :: "string \<Rightarrow> string \<Rightarrow> bool" where
  "spec_contains needle hay =
     list_ex (\<lambda>i. take (length needle) (drop i hay) = needle) [0..<Suc (length hay)]"

text \<open>
  The subtitle candidates of a media file in a directory listing: the files whose
  extension is \<open>.srt\<close> in any letter case and whose name contains the base name of the
  media file.
\<close>

definition spec_subtitle_names :: "string \<Rightarrow> string list \<Rightarrow> string list" where
  "spec_subtitle_names p files =
     filter (\<lambda>f. spec_ci_equal (spec_extension f) ''.srt'' \<and> spec_contains (spec_stem p) f)
       files"

text \<open>
  The subtitle names a record entry holds: the items of a stored list; none when there
  is no entry (the lookup raises or yields \<open>None\<close>). A stored string is not a list of
  names.
\<close>

fun spec_entry_names :: "exn + pyval \<Rightarrow> string list option" where
  "spec_entry_names (Inl e) = Some []"
| "spec_entry_names (Inr PyNone) = Some []"
| "spec_entry_names (Inr (PyList names)) = Some names"
| "spec_entry_names (Inr (PyStr s)) = None"

text \<open>What the completion recorder writes for one destination file, and where.\<close>

definition record_key :: "host \<Rightarrow> string \<Rightarrow> string \<times> string \<times> string" where
  "record_key h d = (dirname d, ''subs_synced'', key_norm h (basename d))"

definition record_value :: "host \<Rightarrow> string \<Rightarrow> pyval" where
  "record_value h d =
     PyList (case listdir h (dirname d) of None \<Rightarrow> [] | Some allfiles \<Rightarrow> srtfiles_of d allfiles)"

definition record_events :: "host \<Rightarrow> string \<Rightarrow> event list" where
  "record_events h d =
     [StoreSet (dirname d) ''subs_synced'' (basename d) (record_value h d),
      StoreSave (dirname d),
      Info (''subtitles synced for '' @ [squote] @ d @ [squote]
            @ '' and recorded in .unmanic file.'')]"

definition record_update :: "host \<Rightarrow> string \<Rightarrow> store \<Rightarrow> store" where
  "record_update h d st =
     st(dirname d := (st (dirname d))((''subs_synced'', key_norm h (basename d))
                                        := Inr (record_value h d)))"

text \<open>
  How a POSIX shell splits a script into words, for the part of the grammar that
  \<open>shlex.quote\<close> relies on: blanks separate words, a semicolon ends a command, single
  quotes keep every character, double quotes keep every character but backslash, dollar
  and backquote, and outside quotes only the characters \<open>[A-Za-z0-9_@%+=:,./-]\<close> stand
  for themselves. A script outside this part has no reading here (\<open>None\<close>).
\<close>

datatype token = Word string | Semi

datatype lex_mode = Plain | InSingle | InDouble

fun emit :: "string option \<Rightarrow> token list" where
  "emit None = []"
| "emit (Some w) = [Word w]"

fun add_char :: "string option \<Rightarrow> char \<Rightarrow> string option" where
  "add_char None c = Some [c]"
| "add_char (Some w) c = Some (w @ [c])"

fun open_word :: "string option \<Rightarrow> string option" where
  "open_word None = Some []"
| "open_word (Some w) = Some w"

fun sh_lex :: "lex_mode \<Rightarrow> string option \<Rightarrow> string \<Rightarrow> token list option" where
  "sh_lex Plain cur [] = Some (emit cur)"
| "sh_lex InSingle cur [] = None"
| "sh_lex InDouble cur [] = None"
| "sh_lex Plain cur (c # cs) =
     (if c = CHR '' '' then map_option (\<lambda>ts. emit cur @ ts) (sh_lex Plain None cs)
      else if c = CHR '';'' then map_option (\<lambda>ts. emit cur @ Semi # ts) (sh_lex Plain None cs)
      else if c = squote then sh_lex InSingle (open_word cur) cs
      else if c = dquote then sh_lex InDouble (open_word cur) cs
      else if safe_char c then sh_lex Plain (add_char cur c) cs
      else None)"
| "sh_lex InSingle cur (c # cs) =
     (if c = squote then sh_lex Plain cur cs else sh_lex InSingle (add_char cur c) cs)"
| "sh_lex InDouble cur (c # cs) =
     (if c = dquote then sh_lex Plain cur cs
      else if c = CHR 0x5C \<or> c = CHR ''$'' \<or> c = CHR 0x60 then None
      else sh_lex InDouble (add_char cur c) cs)"

definition sh_tokens :: "string \<Rightarrow> token list option" where
  "sh_tokens script = sh_lex Plain None script"

text \<open>
  The words of one synchronization call on a media path and a subtitle name, with the
  alignment flag as given.
\<close>

definition sync_words :: "string \<Rightarrow> string \<Rightarrow> string \<Rightarrow> token list" where
  "sync_words abspath srt flag =
     [Word ''ffsubsync'', Word abspath,
      Word ''-i'', Word (join (dirname abspath) srt),
      Word ''-o'', Word (join (dirname abspath) srt),
      Word flag]"

section \<open>Concrete inputs\<close>

definition example_host :: "string list \<Rightarrow> bool \<Rightarrow> host" where
  "example_host files ok =
     \<lparr>listdir = (\<lambda>d. if d = ''/m'' then Some files else None),
      probe_file = (\<lambda>p. ok),
      key_norm = lower\<rparr>"

definition empty_store :: store where
  "empty_store = (\<lambda>d k. Inr PyNone)"

definition example_test_data :: "string \<Rightarrow> file_test_data" where
  "example_test_data p =
     \<lparr>library_id = 1, path = p, issues = [], add_file_to_pending_tasks = False,
      priority_score = 0, shared_info = []\<rparr>"

definition example_worker_data :: "string \<Rightarrow> worker_data" where
  "example_worker_data p =
     \<lparr>exec_command = [''ffmpeg''], command_progress_parser = None, file_in = p,
      file_out = p, original_file_path = p, repeat = True\<rparr>"

definition example_results_data :: "bool \<Rightarrow> string list \<Rightarrow> task_results_data" where
  "example_results_data ok dests =
     \<lparr>task_processing_success = ok, file_move_processes_success = ok,
      destination_files = dests, source_data = []\<rparr>"

text \<open>A store whose record for \<open>movie.mp4\<close> in \<open>/m\<close> holds the given names.\<close>

definition example_store :: "string list \<Rightarrow> store" where
  "example_store names =
     (\<lambda>d k. if d = ''/m'' \<and> k = (''subs_synced'', ''movie.mp4'') then Inr (PyList names)
            else Inr PyNone)"

section \<open>Counters and multisets\<close>

lemma map_of_count_elem:
  "map_of (count_elem x d) k =
     (if k = x then Some (case map_of d x of None \<Rightarrow> 1 | Some n \<Rightarrow> n + 1) else map_of d k)"
  by (induction x d rule: count_elem.induct) auto

lemma keys_count_elem: "fst ` set (count_elem x d) = insert x (fst ` set d)"
  by (induction x d rule: count_elem.induct) auto

lemma distinct_count_elem:
  "distinct (map fst d) \<Longrightarrow> distinct (map fst (count_elem x d))"
  by (induction x d rule: count_elem.induct) (auto simp: keys_count_elem)

lemma foldl_count_elem_inv:
  "distinct (map fst d) \<Longrightarrow>
   distinct (map fst (foldl (\<lambda>d x. count_elem x d) d xs)) \<and>
   fst ` set (foldl (\<lambda>d x. count_elem x d) d xs) = set xs \<union> fst ` set d \<and>
   (\<forall>k. map_of (foldl (\<lambda>d x. count_elem x d) d xs) k =
      (if k \<in> set xs
       then Some (count (mset xs) k + (case map_of d k of None \<Rightarrow> 0 | Some n \<Rightarrow> n))
       else map_of d k))"
proof (induction xs arbitrary: d)
  case Nil
  then show ?case by simp
next
  case (Cons x xs)
  have d': "distinct (map fst (count_elem x d))"
    using Cons.prems by (rule distinct_count_elem)
  note ih = Cons.IH [OF d']
  show ?case
    using ih by (auto simp: keys_count_elem map_of_count_elem split: option.splits)
qed

lemma distinct_Counter: "distinct (map fst (Counter xs))"
  using foldl_count_elem_inv [of "[]" xs] by (simp add: Counter_def)

lemma keys_Counter: "fst ` set (Counter xs) = set xs"
  using foldl_count_elem_inv [of "[]" xs] by (simp add: Counter_def)

lemma map_of_Counter:
  "map_of (Counter xs) k = (if k \<in> set xs then Some (count (mset xs) k) else None)"
  using foldl_count_elem_inv [of "[]" xs] by (simp add: Counter_def)

lemma length_Counter: "length (Counter xs) = card (set xs)"
proof -
  have "length (Counter xs) = length (map fst (Counter xs))" by simp
  also have "\<dots> = card (set (map fst (Counter xs)))"
    using distinct_Counter [of xs] by (simp only: distinct_card)
  also have "\<dots> = card (set xs)" by (simp add: keys_Counter)
  finally show ?thesis .
qed

lemma dict_eq_iff:
  "dict_eq a b \<longleftrightarrow> length a = length b \<and> (\<forall>(k, v) \<in> set a. map_of b k = Some v)"
  by (auto simp: dict_eq_def filter_empty_conv)

lemma Counter_eq_mset: "dict_eq (Counter xs) (Counter ys) \<longleftrightarrow> mset xs = mset ys"
proof
  assume eq: "dict_eq (Counter xs) (Counter ys)"
  then have len: "card (set xs) = card (set ys)"
    and all: "\<And>k v. (k, v) \<in> set (Counter xs) \<Longrightarrow> map_of (Counter ys) k = Some v"
    by (auto simp: dict_eq_iff length_Counter)
  have in_ys: "k \<in> set ys \<and> count (mset ys) k = count (mset xs) k" if "k \<in> set xs" for k
  proof -
    from that have "map_of (Counter xs) k = Some (count (mset xs) k)"
      by (simp add: map_of_Counter)
    then have "(k, count (mset xs) k) \<in> set (Counter xs)" by (rule map_of_SomeD)
    then have "map_of (Counter ys) k = Some (count (mset xs) k)" by (rule all)
    then show ?thesis by (simp add: map_of_Counter split: if_splits)
  qed
  then have "set xs \<subseteq> set ys" by blast
  with len have sets: "set xs = set ys" by (simp add: card_subset_eq)
  show "mset xs = mset ys"
  proof (rule multiset_eqI)
    fix k
    show "count (mset xs) k = count (mset ys) k"
    proof (cases "k \<in> set xs")
      case True
      then show ?thesis using in_ys by simp
    next
      case False
      with sets have "k \<notin> set_mset (mset xs)" and "k \<notin> set_mset (mset ys)"
        by simp_all
      then have "count (mset xs) k = 0" and "count (mset ys) k = 0"
        by (simp_all only: count_eq_zero_iff not_False_eq_True)
      then show ?thesis by (simp only:)
    qed
  qed
next
  assume eq: "mset xs = mset ys"
  then have sets: "set xs = set ys" by (rule mset_eq_setD)
  have "map_of (Counter ys) k = Some v" if "(k, v) \<in> set (Counter xs)" for k v
  proof -
    from that have "map_of (Counter xs) k = Some v"
      using distinct_Counter [of xs] by simp
    then show ?thesis using eq sets by (simp add: map_of_Counter split: if_splits)
  qed
  then show "dict_eq (Counter xs) (Counter ys)"
    using sets by (auto simp: dict_eq_iff length_Counter)
qed


section \<open>The inclusion test compares multisets\<close>

lemma already_synced_of_entry:
  "elements (already_synced_of h st p) = recorded_names (sync_record_entry h st p)"
  by (simp add: already_synced_of_def recorded_names_def sync_record_entry_def
      UnmanicDirectoryInfo_def di_get_def split: sum.splits)

lemma subs_already_synced_iff:
  assumes "listdir h (dirname p) = Some files"
  shows "subs_already_synced h st p =
           Inr (mset (recorded_names (sync_record_entry h st p)) = mset (srts_found p files))"
  using assms
  by (simp add: subs_already_synced_def Counter_eq_mset already_synced_of_entry)



text \<open>
  C9. A video with the extension \<open>.mp4\<close> whose record lookup raises or yields nothing,
  and whose directory holds no matching subtitle file, counts as already synced: the
  inclusion test returns its data as it was.
\<close>

theorem subtitle_less_video_is_synced:
  assumes "lower (snd (splitext (path data))) = ''.mp4''"
    and "listdir h (dirname (path data)) = Some files"
    and "srts_found (path data) files = []"
    and "sync_record_entry h st (path data) = Inl e
         \<or> sync_record_entry h st (path data) = Inr PyNone"
  shows "subs_already_synced h st (path data) = Inr True
         \<and> on_library_management_file_test h st data = (ReturnsData, data)"
proof -
  from assms(4) have "recorded_names (sync_record_entry h st (path data)) = []"
    by (auto simp: recorded_names_def)
  with assms(2,3) have "subs_already_synced h st (path data) = Inr True"
    by (simp add: subs_already_synced_iff)
  with assms(1) show ?thesis
    by (simp add: on_library_management_file_test_def)
qed

theorem subtitle_less_video_is_synced_witness:
  "subs_already_synced (example_host [''movie.mp4'', ''notes.txt''] True) empty_store
     (path (example_test_data ''/m/movie.mp4'')) = Inr True
   \<and> on_library_management_file_test (example_host [''movie.mp4'', ''notes.txt''] True)
       empty_store (example_test_data ''/m/movie.mp4'')
     = (ReturnsData, example_test_data ''/m/movie.mp4'')"
proof -
  have ext: "lower (snd (splitext (path (example_test_data ''/m/movie.mp4'')))) = ''.mp4''"
    by code_simp
  have ls: "listdir (example_host [''movie.mp4'', ''notes.txt''] True)
              (dirname (path (example_test_data ''/m/movie.mp4'')))
            = Some [''movie.mp4'', ''notes.txt'']"
    by code_simp
  have none: "srts_found (path (example_test_data ''/m/movie.mp4''))
                [''movie.mp4'', ''notes.txt''] = []"
    by code_simp
  have entry: "sync_record_entry (example_host [''movie.mp4'', ''notes.txt''] True) empty_store
                 (path (example_test_data ''/m/movie.mp4'')) = Inl KeyError
               \<or> sync_record_entry (example_host [''movie.mp4'', ''notes.txt''] True) empty_store
                 (path (example_test_data ''/m/movie.mp4'')) = Inr PyNone"
    by (simp add: sync_record_entry_def empty_store_def)
  show ?thesis
    using subtitle_less_video_is_synced [OF ext ls none entry] .
qed

text \<open>
  C10. Whatever the input, the data the inclusion test leaves behind is the data it was
  given, or that data with \<open>add_file_to_pending_tasks\<close> set to true: no other field
  changes and the flag is never set to false.
\<close>

theorem inclusion_test_only_raises_flag:
  "snd (on_library_management_file_test h st data) = data
   \<or> snd (on_library_management_file_test h st data)
       = data\<lparr>add_file_to_pending_tasks := True\<rparr>"
  by (auto simp: on_library_management_file_test_def Let_def split: sum.splits)

section \<open>Properties of the completion recorder\<close>

text \<open>
  C5. When the task did not succeed, the completion recorder returns its data unchanged,
  leaves the record store as it was and performs no set and no save.
\<close>

theorem recorder_noop_on_failure:
  assumes "\<not> task_processing_success data"
  shows "on_postprocessor_task_results h st data = (ReturnsData, data, st, [])"
  using assms by (simp add: on_postprocessor_task_results_def)

theorem recorder_noop_on_failure_witness:
  "\<not> task_processing_success (example_results_data False [''/m/movie.mp4''])
   \<and> on_postprocessor_task_results (example_host [''movie.mp4'', ''movie.srt''] True) empty_store
       (example_results_data False [''/m/movie.mp4''])
     = (ReturnsData, example_results_data False [''/m/movie.mp4''], empty_store, [])"
proof -
  have failed: "\<not> task_processing_success (example_results_data False [''/m/movie.mp4''])"
    by (simp add: example_results_data_def)
  show ?thesis
    using recorder_noop_on_failure [OF failed] failed by simp
qed

lemma record_step:
  assumes "listdir h (dirname d) = Some allfiles"
  shows "record_loop h (d # rest) st tr
           = record_loop h rest (record_update h d st) (tr @ record_events h d)"
  using assms
  by (simp add: record_update_def record_events_def record_value_def
      UnmanicDirectoryInfo_def di_set_def di_save_def Let_def)


lemma record_loop_store:
  "fst (snd (record_loop h ds st tr))
     = fold (record_update h) (takeWhile (\<lambda>d. listdir h (dirname d) \<noteq> None) ds) st"
proof (induction ds arbitrary: st tr)
  case Nil
  then show ?case by simp
next
  case (Cons d ds)
  show ?case
  proof (cases "listdir h (dirname d)")
    case None
    then show ?thesis by simp
  next
    case (Some allfiles)
    then show ?thesis
      by (simp only: record_step [OF Some] Cons.IH) simp
  qed
qed

lemma record_update_apply:
  "record_update h d st dir key
     = (if (dir, key) = record_key h d then Inr (record_value h d) else st dir key)"
  by (auto simp: record_update_def record_key_def)

lemma fold_update_frame:
  "(dir, key) \<notin> record_key h ` set ds \<Longrightarrow> fold (record_update h) ds st dir key = st dir key"
  by (induction ds arbitrary: st) (auto simp: record_update_apply)

lemma fold_update_agree:
  assumes "\<And>dir key. (dir, key) \<notin> record_key h ` set ds \<Longrightarrow> st1 dir key = st2 dir key"
  shows "fold (record_update h) ds st1 = fold (record_update h) ds st2"
  using assms
proof (induction ds arbitrary: st1 st2)
  case Nil
  then show ?case by (intro ext) simp
next
  case (Cons d ds)
  have "fold (record_update h) ds (record_update h d st1)
          = fold (record_update h) ds (record_update h d st2)"
  proof (rule Cons.IH)
    fix dir key
    assume out: "(dir, key) \<notin> record_key h ` set ds"
    show "record_update h d st1 dir key = record_update h d st2 dir key"
    proof (cases "(dir, key) = record_key h d")
      case True
      then show ?thesis by (simp add: record_update_apply)
    next
      case False
      with out have "(dir, key) \<notin> record_key h ` set (d # ds)" by auto
      then have "st1 dir key = st2 dir key" by (rule Cons.prems)
      with False show ?thesis by (simp add: record_update_apply)
    qed
  qed
  then show ?case by simp
qed

lemma fold_update_twice:
  "fold (record_update h) ds (fold (record_update h) ds st) = fold (record_update h) ds st"
  by (rule fold_update_agree) (rule fold_update_frame)





text \<open>
  C6. Running the completion recorder a second time, on the store the first run left and
  with the same data and the same directory contents, leaves the store as the first run
  left it.
\<close>

theorem recorder_idempotent:
  "store_after h (store_after h st data) data = store_after h st data"
proof (cases "task_processing_success data")
  case False
  then show ?thesis
    by (simp add: store_after_def on_postprocessor_task_results_def)
next
  case True
  have run: "store_after h s data
               = fold (record_update h)
                   (takeWhile (\<lambda>d. listdir h (dirname d) \<noteq> None) (destination_files data)) s"
    for s
    using True record_loop_store [of h "destination_files data" s "[]"]
    by (cases "record_loop h (destination_files data) s []")
      (simp add: store_after_def on_postprocessor_task_results_def)
  show ?thesis
    by (simp only: run fold_update_twice)
qed

section \<open>Properties of the command builder\<close>

text \<open>
  C2. When the probe fails, the command builder logs the warning and then raises: the
  result of \<open>logger.warning\<close> is \<open>None\<close>, and the call of \<open>format\<close> on it is an
  \<open>AttributeError\<close> that reaches the host. The command is empty at that point.
\<close>

theorem probe_failure_raises:
  "on_worker_process (example_host [''movie.mp4'', ''movie.srt''] False)
     (example_worker_data ''/m/movie.mp4'')
   = (Raises AttributeError,
      (example_worker_data ''/m/movie.mp4'')\<lparr>exec_command := [], repeat := False\<rparr>,
      [Warning ''Failed probed for file {}''])"
  by code_simp

text \<open>
  C3. With two subtitles the script has two calls separated by a semicolon, and no
  semicolon at the end; but the slice \<open>[:-2]\<close> removes two characters, so the last call
  ends in \<open>--gs\<close>, not in \<open>--gss\<close>.
\<close>

theorem last_call_loses_flag_character:
  "exec_command (fst (snd (on_worker_process
     (example_host [''movie.mp4'', ''movie.en.srt'', ''movie.fr.srt''] True)
     (example_worker_data ''/m/movie.mp4''))))
   = [''bash'', ''-c'',
      ''ffsubsync /m/movie.mp4 -i /m/movie.en.srt -o /m/movie.en.srt --gss;ffsubsync /m/movie.mp4 -i /m/movie.fr.srt -o /m/movie.fr.srt --gs'']"
  by code_simp

text \<open>
  C8. The command builder leaves the repeat flag false in every case, and a command that
  is not empty only when the probe succeeded and the directory holds a matching subtitle
  file with the exact extension \<open>.srt\<close>. When the probe succeeds and no such file exists,
  it returns the data with the empty command, the repeat flag false and nothing else
  changed.
\<close>

theorem no_subtitles_no_command:
  "repeat (fst (snd (on_worker_process h data))) = False
   \<and> (exec_command (fst (snd (on_worker_process h data))) \<noteq> [] \<longrightarrow>
        probe_file h (original_file_path data)
        \<and> (\<exists>allfiles. listdir h (dirname (original_file_path data)) = Some allfiles
              \<and> srtfiles_of (original_file_path data) allfiles \<noteq> []))
   \<and> (probe_file h (original_file_path data)
        \<and> listdir h (dirname (original_file_path data)) = Some allfiles
        \<and> srtfiles_of (original_file_path data) allfiles = [] \<longrightarrow>
        on_worker_process h data
          = (ReturnsData, data\<lparr>exec_command := [], repeat := False\<rparr>, []))"
  by (auto simp: on_worker_process_def Let_def split: option.splits)

theorem no_subtitles_no_command_witness:
  "probe_file (example_host [''movie.mp4'', ''movie.SRT'', ''other.srt''] True)
     (original_file_path (example_worker_data ''/m/movie.mp4''))
   \<and> srtfiles_of (original_file_path (example_worker_data ''/m/movie.mp4''))
        [''movie.mp4'', ''movie.SRT'', ''other.srt''] = []
   \<and> on_worker_process (example_host [''movie.mp4'', ''movie.SRT'', ''other.srt''] True)
        (example_worker_data ''/m/movie.mp4'')
      = (ReturnsData,
         (example_worker_data ''/m/movie.mp4'')\<lparr>exec_command := [], repeat := False\<rparr>, [])"
proof -
  let ?h = "example_host [''movie.mp4'', ''movie.SRT'', ''other.srt''] True"
  let ?data = "example_worker_data ''/m/movie.mp4''"
  have probe: "probe_file ?h (original_file_path ?data)"
    by (simp add: example_host_def)
  have ls: "listdir ?h (dirname (original_file_path ?data))
              = Some [''movie.mp4'', ''movie.SRT'', ''other.srt'']"
    by code_simp
  have none: "srtfiles_of (original_file_path ?data)
                [''movie.mp4'', ''movie.SRT'', ''other.srt''] = []"
    by code_simp
  show ?thesis
    using no_subtitles_no_command [of ?h ?data "[''movie.mp4'', ''movie.SRT'', ''other.srt'']"]
      probe ls none
    by simp
qed

section \<open>Quoting of the paths in the script\<close>

lemma unsafe_specials:
  "\<not> safe_char (CHR '' '')" "\<not> safe_char (CHR '';'')"
  "\<not> safe_char squote" "\<not> safe_char dquote"
  by (simp_all add: safe_char_def squote_def dquote_def)

lemma safe_not_special:
  assumes "safe_char c"
  shows "c \<noteq> CHR '' ''" "c \<noteq> CHR '';''" "c \<noteq> squote" "c \<noteq> dquote"
  using assms unsafe_specials by auto

lemma quotes_differ:
  "squote \<noteq> dquote" "dquote \<noteq> squote"
  "dquote \<noteq> CHR 0x5C" "dquote \<noteq> CHR ''$''" "dquote \<noteq> CHR 0x60"
  "squote \<noteq> CHR 0x5C" "squote \<noteq> CHR ''$''" "squote \<noteq> CHR 0x60"
  "squote \<noteq> CHR '' ''" "squote \<noteq> CHR '';''"
  "dquote \<noteq> CHR '' ''" "dquote \<noteq> CHR '';''"
  by (simp_all add: squote_def dquote_def)

text \<open>A run of safe characters outside quotes extends the word being read.\<close>

lemma lex_safe_run:
  assumes "filter (\<lambda>c. \<not> safe_char c) s = []"
  shows "sh_lex Plain (Some w) (s @ rest) = sh_lex Plain (Some (w @ s)) rest"
  using assms
proof (induction s arbitrary: w)
  case Nil
  then show ?case by simp
next
  case (Cons c s)
  from Cons.prems have safe: "safe_char c" and rest: "filter (\<lambda>c. \<not> safe_char c) s = []"
    by (auto split: if_splits)
  show ?case
    using safe_not_special [OF safe] safe Cons.IH [OF rest, of "w @ [c]"]
    by simp
qed

lemma lex_safe_word:
  assumes "filter (\<lambda>c. \<not> safe_char c) s = []" and "s \<noteq> []"
  shows "sh_lex Plain None (s @ rest) = sh_lex Plain (Some s) rest"
proof -
  from assms(2) obtain c cs where s: "s = c # cs" by (cases s) auto
  with assms(1) have safe: "safe_char c" and rest: "filter (\<lambda>c. \<not> safe_char c) cs = []"
    by (auto split: if_splits)
  show ?thesis
    using safe_not_special [OF safe] safe lex_safe_run [OF rest, of "[c]" rest]
    by (simp add: s)
qed

text \<open>
  Inside single quotes, the escaped text followed by the closing quote reads back as the
  text itself, and the lexer is outside quotes again.
\<close>

lemma escape_squotes_Cons:
  "escape_squotes (c # s)
     = (if c = squote then [squote, dquote, squote, dquote, squote] else [c]) @ escape_squotes s"
  by (simp add: escape_squotes_def)

lemma lex_escaped:
  "sh_lex InSingle (Some w) (escape_squotes s @ squote # rest)
     = sh_lex Plain (Some (w @ s)) rest"
proof (induction s arbitrary: w)
  case Nil
  then show ?case by (simp add: escape_squotes_def)
next
  case (Cons c s)
  show ?case
  proof (cases "c = squote")
    case True
    then show ?thesis
      using Cons.IH [of "w @ [squote]"] by (simp add: escape_squotes_Cons quotes_differ)
  next
    case False
    then show ?thesis
      using Cons.IH [of "w @ [c]"] by (simp add: escape_squotes_Cons)
  qed
qed

text \<open>What \<open>shlex.quote\<close> returns for a string is read by the shell as that string.\<close>

lemma lex_shlex_quote:
  "sh_lex Plain None (shlex_quote s @ rest) = sh_lex Plain (Some s) rest"
proof (cases "s = []")
  case True
  then show ?thesis by (simp add: shlex_quote_def quotes_differ)
next
  case False
  show ?thesis
  proof (cases "filter (\<lambda>c. \<not> safe_char c) s = []")
    case True
    with False show ?thesis by (simp add: shlex_quote_def lex_safe_word)
  next
    case unsafe: False
    have "sh_lex Plain None (squote # escape_squotes s @ squote # rest)
            = sh_lex InSingle (Some []) (escape_squotes s @ squote # rest)"
      by (simp add: quotes_differ)
    also have "\<dots> = sh_lex Plain (Some s) rest"
      using lex_escaped [of "[]" s rest] by simp
    finally show ?thesis
      using False unsafe by (simp add: shlex_quote_def)
  qed
qed

lemma lex_blank:
  "sh_lex Plain (Some w) (CHR '' '' # rest) = map_option ((#) (Word w)) (sh_lex Plain None rest)"
  by (simp add: option.map_ident cong: option.map_cong)

lemma lex_quoted_arg:
  "sh_lex Plain None (shlex_quote s @ CHR '' '' # rest)
     = map_option ((#) (Word s)) (sh_lex Plain None rest)"
  by (simp only: lex_shlex_quote lex_blank)

lemma lex_literals:
  "sh_lex Plain None (''ffsubsync '' @ rest)
     = map_option ((#) (Word ''ffsubsync'')) (sh_lex Plain None rest)"
  "sh_lex Plain None (''-i '' @ rest) = map_option ((#) (Word ''-i'')) (sh_lex Plain None rest)"
  "sh_lex Plain None (''-o '' @ rest) = map_option ((#) (Word ''-o'')) (sh_lex Plain None rest)"
  "sh_lex Plain None (''--gss;'' @ rest)
     = map_option (\<lambda>ts. Word ''--gss'' # Semi # ts) (sh_lex Plain None rest)"
  "sh_lex Plain None ''--gs'' = Some [Word ''--gs'']"
  by (simp_all add: safe_char_def squote_def dquote_def option.map_ident
      cong: option.map_cong)

lemma sync_call_parts:
  "sync_call abspath srt
     = ''ffsubsync '' @ shlex_quote abspath
       @ CHR '' '' # ''-i '' @ shlex_quote (join (dirname abspath) srt)
       @ CHR '' '' # ''-o '' @ shlex_quote (join (dirname abspath) srt)
       @ CHR '' '' # ''--gss;''"
  by (simp add: sync_call_def)

text \<open>One call, with its terminator, is read as its seven words and a semicolon.\<close>

lemma lex_sync_call:
  "sh_lex Plain None (sync_call abspath srt @ rest)
     = map_option (\<lambda>ts. sync_words abspath srt ''--gss'' @ Semi # ts) (sh_lex Plain None rest)"
proof -
  have "sh_lex Plain None (sync_call abspath srt @ rest)
          = sh_lex Plain None
              (''ffsubsync '' @ shlex_quote abspath
               @ CHR '' '' # ''-i '' @ shlex_quote (join (dirname abspath) srt)
               @ CHR '' '' # ''-o '' @ shlex_quote (join (dirname abspath) srt)
               @ CHR '' '' # ''--gss;'' @ rest)"
    by (simp add: sync_call_parts)
  also have "\<dots> = map_option (\<lambda>ts. sync_words abspath srt ''--gss'' @ Semi # ts)
                     (sh_lex Plain None rest)"
    by (simp only: lex_literals lex_quoted_arg option.map_comp)
       (simp add: sync_words_def comp_def)
  finally show ?thesis .
qed

text \<open>The last call, cut two characters short, is read as its seven words.\<close>

lemma butlast2_sync_call:
  "butlast (butlast (sync_call abspath srt))
     = ''ffsubsync '' @ shlex_quote abspath
       @ CHR '' '' # ''-i '' @ shlex_quote (join (dirname abspath) srt)
       @ CHR '' '' # ''-o '' @ shlex_quote (join (dirname abspath) srt)
       @ CHR '' '' # ''--gs''"
  by (simp add: sync_call_def butlast_append)

lemma lex_last_call:
  "sh_lex Plain None (butlast (butlast (sync_call abspath srt)))
     = Some (sync_words abspath srt ''--gs'')"
  by (simp only: butlast2_sync_call lex_literals lex_quoted_arg option.map_comp)
     (simp add: sync_words_def)

lemma lex_calls:
  "sh_lex Plain None (concat (map (sync_call abspath) srts) @ rest)
     = map_option
         ((@) (concat (map (\<lambda>srt. sync_words abspath srt ''--gss'' @ [Semi]) srts)))
         (sh_lex Plain None rest)"
proof (induction srts)
  case Nil
  show ?case by (simp add: option.map_ident cong: option.map_cong)
next
  case (Cons srt srts)
  have "sh_lex Plain None (concat (map (sync_call abspath) (srt # srts)) @ rest)
          = sh_lex Plain None
              (sync_call abspath srt @ concat (map (sync_call abspath) srts) @ rest)"
    by simp
  also have "\<dots> = map_option (\<lambda>ts. sync_words abspath srt ''--gss'' @ Semi # ts)
                     (sh_lex Plain None (concat (map (sync_call abspath) srts) @ rest))"
    by (rule lex_sync_call)
  finally show ?case
    by (simp add: Cons.IH option.map_comp comp_def)
qed

lemma foldl_sync_calls:
  "foldl (\<lambda>acc srt. acc @ sync_call abspath srt) acc srts
     = acc @ concat (map (sync_call abspath) srts)"
  by (induction srts arbitrary: acc) simp_all

lemma length_sync_call: "2 \<le> length (sync_call abspath srt)"
  by (simp add: sync_call_def)

lemma slice_minus2: "take (length zs - 2) zs = butlast (butlast zs)"
  by (simp add: butlast_conv_take numeral_2_eq_2)

lemma take_butlast2:
  assumes "2 \<le> length ys"
  shows "take (length (xs @ ys) - 2) (xs @ ys) = xs @ butlast (butlast ys)"
proof -
  have inner: "butlast (butlast (xs @ ys)) = xs @ butlast (butlast ys)"
    using assms by (cases ys rule: rev_cases; cases "butlast ys" rule: rev_cases)
      (auto simp: butlast_append)
  show ?thesis by (simp only: slice_minus2 inner)
qed

lemma longcommand_snoc:
  "longcommand_of abspath (srts @ [final])
     = concat (map (sync_call abspath) srts) @ butlast (butlast (sync_call abspath final))"
  using take_butlast2 [OF length_sync_call,
      of "concat (map (sync_call abspath) srts)" abspath final]
  by (simp add: longcommand_of_def foldl_sync_calls Let_def)

lemma tokens_longcommand:
  assumes "srtfiles \<noteq> []"
  shows "sh_tokens (longcommand_of abspath srtfiles)
           = Some (concat (map (\<lambda>srt. sync_words abspath srt ''--gss'' @ [Semi])
                            (butlast srtfiles))
                   @ sync_words abspath (last srtfiles) ''--gs'')"
proof -
  from assms have split: "srtfiles = butlast srtfiles @ [last srtfiles]" by simp
  have "sh_tokens (longcommand_of abspath (butlast srtfiles @ [last srtfiles]))
          = Some (concat (map (\<lambda>srt. sync_words abspath srt ''--gss'' @ [Semi])
                           (butlast srtfiles))
                  @ sync_words abspath (last srtfiles) ''--gs'')"
    by (simp add: sh_tokens_def longcommand_snoc lex_calls lex_last_call)
  with split show ?thesis by simp
qed

text \<open>
  C7. When the command builder produces a script, a shell reads it as one call per
  subtitle, each of seven words: the tool, the media path, \<open>-i\<close>, the subtitle path,
  \<open>-o\<close>, the subtitle path and the flag. Whatever characters the media path and the
  subtitle names contain (blanks, quotes, semicolons), each path is one word of the call,
  equal to the path itself.
\<close>

theorem script_paths_are_single_words:
  assumes "probe_file h (original_file_path data)"
    and "listdir h (dirname (original_file_path data)) = Some allfiles"
    and "srtfiles_of (original_file_path data) allfiles \<noteq> []"
  shows "exec_command (fst (snd (on_worker_process h data)))
           = [''bash'', ''-c'',
              longcommand_of (original_file_path data)
                (srtfiles_of (original_file_path data) allfiles)]
         \<and> sh_tokens (longcommand_of (original_file_path data)
                        (srtfiles_of (original_file_path data) allfiles))
           = Some (concat (map (\<lambda>srt. sync_words (original_file_path data) srt ''--gss'' @ [Semi])
                            (butlast (srtfiles_of (original_file_path data) allfiles)))
                   @ sync_words (original_file_path data)
                       (last (srtfiles_of (original_file_path data) allfiles)) ''--gs'')"
proof -
  from assms(3) have "\<not> length (srtfiles_of (original_file_path data) allfiles) < 1"
    by (cases "srtfiles_of (original_file_path data) allfiles") simp_all
  with assms(1,2) have "exec_command (fst (snd (on_worker_process h data)))
          = [''bash'', ''-c'',
             longcommand_of (original_file_path data)
               (srtfiles_of (original_file_path data) allfiles)]"
    by (simp add: on_worker_process_def Let_def)
  with tokens_longcommand [OF assms(3)] show ?thesis by simp
qed

theorem script_paths_are_single_words_witness:
  "exec_command (fst (snd (on_worker_process
     (example_host [''my movie.mp4'', ''my movie.srt'', ''my movie;x.srt''] True)
     (example_worker_data ''/m/my movie.mp4''))))
   = [''bash'', ''-c'',
      longcommand_of ''/m/my movie.mp4'' [''my movie.srt'', ''my movie;x.srt'']]
   \<and> sh_tokens (longcommand_of ''/m/my movie.mp4'' [''my movie.srt'', ''my movie;x.srt''])
     = Some [Word ''ffsubsync'', Word ''/m/my movie.mp4'',
             Word ''-i'', Word ''/m/my movie.srt'', Word ''-o'', Word ''/m/my movie.srt'',
             Word ''--gss'', Semi,
             Word ''ffsubsync'', Word ''/m/my movie.mp4'',
             Word ''-i'', Word ''/m/my movie;x.srt'', Word ''-o'', Word ''/m/my movie;x.srt'',
             Word ''--gs'']"
proof -
  let ?h = "example_host [''my movie.mp4'', ''my movie.srt'', ''my movie;x.srt''] True"
  let ?data = "example_worker_data ''/m/my movie.mp4''"
  have p: "original_file_path ?data = ''/m/my movie.mp4''"
    by (simp add: example_worker_data_def)
  have probe: "probe_file ?h (original_file_path ?data)"
    by (simp add: example_host_def)
  have dir: "dirname ''/m/my movie.mp4'' = ''/m''" by code_simp
  have ls: "listdir ?h (dirname (original_file_path ?data))
              = Some [''my movie.mp4'', ''my movie.srt'', ''my movie;x.srt'']"
    by (simp add: p dir example_host_def)
  have srts: "srtfiles_of ''/m/my movie.mp4'' [''my movie.mp4'', ''my movie.srt'', ''my movie;x.srt'']
                = [''my movie.srt'', ''my movie;x.srt'']"
    by code_simp
  have found: "srtfiles_of (original_file_path ?data)
                 [''my movie.mp4'', ''my movie.srt'', ''my movie;x.srt''] \<noteq> []"
    by (simp add: p srts)
  have j1: "join ''/m'' ''my movie.srt'' = ''/m/my movie.srt''" by code_simp
  have j2: "join ''/m'' ''my movie;x.srt'' = ''/m/my movie;x.srt''" by code_simp
  show ?thesis
    using script_paths_are_single_words [OF probe ls found]
    by (simp add: p srts dir j1 j2 sync_words_def)
qed

end
